theory Spec2Isabelle
  imports Main "HOL-Library.Word"
begin

unbundle bit_operations_syntax

section \<open>Go values used by pkg/proc/amd64util/xsave.go\<close>

type_synonym byte = "8 word"
type_synonym uint16 = "16 word"
type_synonym uint32 = "32 word"
type_synonym uint64 = "64 word"

text \<open>
  Go's \<open>int\<close> is 64 bits wide on amd64. It is modelled as an \<open>int\<close> with the
  two's-complement wrap-around of every arithmetic result written out.
\<close>

definition wrap64 :: "int \<Rightarrow> int" where
  "wrap64 x = (x + 2 ^ 63) mod 2 ^ 64 - 2 ^ 63"

definition go_add :: "int \<Rightarrow> int \<Rightarrow> int" where
  "go_add a b = wrap64 (a + b)"

definition go_mul :: "int \<Rightarrow> int \<Rightarrow> int" where
  "go_mul a b = wrap64 (a * b)"

text \<open>
  A byte slice is its elements (\<open>len\<close> of them) together with the bytes of the backing
  array that lie between \<open>len\<close> and \<open>cap\<close>: Go lets \<open>s[:hi]\<close> reach up to the capacity.
  A slice expression whose bounds are out of range panics; that is the value \<open>None\<close>.
\<close>

type_synonym bslice = "byte list \<times> byte list"

definition len :: "bslice \<Rightarrow> int" where
  "len s = int (length (fst s))"

definition cap :: "bslice \<Rightarrow> int" where
  "cap s = int (length (fst s) + length (snd s))"

definition slice_from :: "bslice \<Rightarrow> int \<Rightarrow> bslice option" where
  \<comment> \<open>\<open>s[lo:]\<close>: needs \<open>0 \<le> lo \<le> len(s)\<close>\<close>
  "slice_from s lo =
     (if 0 \<le> lo \<and> lo \<le> len s then Some (drop (nat lo) (fst s), snd s) else None)"

definition slice_upto :: "bslice \<Rightarrow> int \<Rightarrow> bslice option" where
  \<comment> \<open>\<open>s[:hi]\<close>: needs \<open>0 \<le> hi \<le> cap(s)\<close>\<close>
  "slice_upto s hi =
     (if 0 \<le> hi \<and> hi \<le> cap s
      then Some (take (nat hi) (fst s @ snd s), drop (nat hi) (fst s @ snd s))
      else None)"

definition go_copy :: "byte list \<Rightarrow> byte list \<Rightarrow> byte list" where
  \<comment> \<open>the destination after \<open>copy(dst, src)\<close>: \<open>min(len(dst), len(src))\<close> bytes are copied\<close>
  "go_copy dst src = take (min (length dst) (length src)) src @ drop (length src) dst"

definition copy_at :: "byte list \<Rightarrow> int \<Rightarrow> byte list \<Rightarrow> byte list option" where
  \<comment> \<open>the buffer after \<open>copy(buf[pos:], src)\<close>; the sub-slice aliases the buffer\<close>
  "copy_at buf pos src =
     (if 0 \<le> pos \<and> pos \<le> int (length buf)
      then Some (take (nat pos) buf @ go_copy (drop (nat pos) buf) src)
      else None)"

subsection \<open>encoding/binary, little endian\<close>

definition Uint16 :: "byte list \<Rightarrow> uint16" where
  "Uint16 b = ucast (b ! 0) OR push_bit 8 (ucast (b ! 1))"

definition Uint32 :: "byte list \<Rightarrow> uint32" where
  "Uint32 b = ucast (b ! 0) OR push_bit 8 (ucast (b ! 1)) OR push_bit 16 (ucast (b ! 2))
     OR push_bit 24 (ucast (b ! 3))"

definition Uint64 :: "byte list \<Rightarrow> uint64" where
  "Uint64 b = ucast (b ! 0) OR push_bit 8 (ucast (b ! 1)) OR push_bit 16 (ucast (b ! 2))
     OR push_bit 24 (ucast (b ! 3)) OR push_bit 32 (ucast (b ! 4))
     OR push_bit 40 (ucast (b ! 5)) OR push_bit 48 (ucast (b ! 6))
     OR push_bit 56 (ucast (b ! 7))"

definition PutUint16 :: "uint16 \<Rightarrow> byte list" where
  "PutUint16 v = [ucast v, ucast (drop_bit 8 v)]"

definition PutUint32 :: "uint32 \<Rightarrow> byte list" where
  "PutUint32 v = [ucast v, ucast (drop_bit 8 v), ucast (drop_bit 16 v), ucast (drop_bit 24 v)]"

definition PutUint64 :: "uint64 \<Rightarrow> byte list" where
  "PutUint64 v = [ucast v, ucast (drop_bit 8 v), ucast (drop_bit 16 v), ucast (drop_bit 24 v),
     ucast (drop_bit 32 v), ucast (drop_bit 40 v), ucast (drop_bit 48 v), ucast (drop_bit 56 v)]"

subsection \<open>Errors and outcomes\<close>

text \<open>
  Each \<open>fmt.Errorf\<close> of the source is a constructor carrying the arguments of its format
  string; \<open>EOF\<close> and \<open>ErrUnexpectedEOF\<close> are what \<open>binary.Read\<close> returns on a short
  reader. A call either returns nil, returns an error, or panics at a slice expression.
  The register state is reached through a pointer, so what was written before an error or
  a panic stays written: every operation returns the outcome and the state.
\<close>

datatype error =
    EOF
  | ErrUnexpectedEOF
  | ErrNotSupported int
  | ErrTooLarge int int
  | ErrNotInXsave int
  | ErrYmmNotInXsave int int
  | ErrZmmNotInXsave int int

datatype status = Success | Failure error | Panicked

text \<open>The two error kinds of the specification.\<close>

datatype error_kind = StructuralReadError | RegisterWriteOutOfRange

fun kind_of :: "error \<Rightarrow> error_kind" where
  "kind_of EOF = StructuralReadError"
| "kind_of ErrUnexpectedEOF = StructuralReadError"
| "kind_of (ErrNotSupported n) = RegisterWriteOutOfRange"
| "kind_of (ErrTooLarge n l) = RegisterWriteOutOfRange"
| "kind_of (ErrNotInXsave n) = RegisterWriteOutOfRange"
| "kind_of (ErrYmmNotInXsave n l) = RegisterWriteOutOfRange"
| "kind_of (ErrZmmNotInXsave n l) = RegisterWriteOutOfRange"

section \<open>The data model\<close>

record AMD64PtraceFpRegs =
  Cwd :: uint16
  Swd :: uint16
  Ftw :: uint16
  Fop :: uint16
  Rip :: uint64
  Rdp :: uint64
  Mxcsr :: uint32
  MxcrMask :: uint32
  StSpace :: "uint32 list"
  XmmSpace :: "byte list"
  Padding :: "uint32 list"

record AMD64Xstate = AMD64PtraceFpRegs +
  Xsave :: "byte list"
  AvxState :: bool
  YmmSpace :: "byte list"
  Avx512State :: bool
  ZmmSpace :: "byte list"
  zmmHi256offset :: int

text \<open>The fixed array sizes of the two structs.\<close>

definition wf_Xstate :: "AMD64Xstate \<Rightarrow> bool" where
  "wf_Xstate x \<longleftrightarrow> length (StSpace x) = 32 \<and> length (XmmSpace x) = 256
     \<and> length (Padding x) = 24 \<and> length (YmmSpace x) = 256 \<and> length (ZmmSpace x) = 512"

text \<open>The zero value of the struct: what \<open>var regset AMD64Xstate\<close> gives.\<close>

definition zero_Xstate :: AMD64Xstate where
  "zero_Xstate = \<lparr> Cwd = 0, Swd = 0, Ftw = 0, Fop = 0, Rip = 0, Rdp = 0, Mxcsr = 0,
     MxcrMask = 0, StSpace = replicate 32 0, XmmSpace = replicate 256 0,
     Padding = replicate 24 0, Xsave = [], AvxState = False, YmmSpace = replicate 256 0,
     Avx512State = False, ZmmSpace = replicate 512 0, zmmHi256offset = 0 \<rparr>"

section \<open>Layout constants\<close>

definition XSAVE_XMM_REGION_START :: int where "XSAVE_XMM_REGION_START = 160"
definition XSAVE_HEADER_START :: int where "XSAVE_HEADER_START = 512"
definition XSAVE_HEADER_LEN :: int where "XSAVE_HEADER_LEN = 64"
definition XSAVE_EXTENDED_REGION_START :: int where "XSAVE_EXTENDED_REGION_START = 576"
definition XSAVE_SSE_REGION_LEN :: int where "XSAVE_SSE_REGION_LEN = 416"
definition I386_LINUX_XSAVE_XCR0_OFFSET :: int where "I386_LINUX_XSAVE_XCR0_OFFSET = 464"

definition hasAVX :: "uint64 \<Rightarrow> bool" where
  "hasAVX s \<longleftrightarrow> s AND push_bit 2 1 \<noteq> 0"

definition hasZMM_Hi256 :: "uint64 \<Rightarrow> bool" where
  "hasZMM_Hi256 s \<longleftrightarrow> s AND push_bit 6 1 \<noteq> 0"

definition hasHi16_ZMM :: "uint64 \<Rightarrow> bool" where
  "hasHi16_ZMM s \<longleftrightarrow> s AND push_bit 7 1 \<noteq> 0"

definition hasPKRU :: "uint64 \<Rightarrow> bool" where
  "hasPKRU s \<longleftrightarrow> s AND push_bit 9 1 \<noteq> 0"

section \<open>AMD64XstateRead\<close>

text \<open>
  \<open>binary.Read(rdr, binary.LittleEndian, &regset.AMD64PtraceFpRegs)\<close>: the struct is 512
  bytes; the reader is read in full first, and nothing is stored when it is too short.
\<close>

definition binary_Read :: "byte list \<Rightarrow> AMD64Xstate \<Rightarrow> error + AMD64Xstate" where
  "binary_Read rdr regset =
     (if length rdr < 512 then Inl (if rdr = [] then EOF else ErrUnexpectedEOF)
      else Inr (regset\<lparr>
        Cwd := Uint16 (take 2 rdr),
        Swd := Uint16 (take 2 (drop 2 rdr)),
        Ftw := Uint16 (take 2 (drop 4 rdr)),
        Fop := Uint16 (take 2 (drop 6 rdr)),
        Rip := Uint64 (take 8 (drop 8 rdr)),
        Rdp := Uint64 (take 8 (drop 16 rdr)),
        Mxcsr := Uint32 (take 4 (drop 24 rdr)),
        MxcrMask := Uint32 (take 4 (drop 28 rdr)),
        StSpace := map (\<lambda>k. Uint32 (take 4 (drop (32 + 4 * k) rdr))) [0..<32],
        XmmSpace := take 256 (drop 160 rdr),
        Padding := map (\<lambda>k. Uint32 (take 4 (drop (416 + 4 * k) rdr))) [0..<24]\<rparr>))"

text \<open>
  \<open>AMD64XstateRead(xstateargs, readLegacy, regset, xstateZMMHi256Offset)\<close>. The state
  \<open>regset\<close> is updated in place, so the function returns it together with the outcome;
  the numbered states follow the assignments of the source in their order.
\<close>

definition AMD64XstateRead ::
  "bslice \<Rightarrow> bool \<Rightarrow> AMD64Xstate \<Rightarrow> int \<Rightarrow> status \<times> AMD64Xstate" where
  "AMD64XstateRead xstateargs readLegacy regset xstateZMMHi256Offset =
     (if XSAVE_HEADER_START + XSAVE_HEADER_LEN \<ge> len xstateargs then (Success, regset)
      else
        case (if readLegacy
              then binary_Read (take (nat XSAVE_HEADER_START) (fst xstateargs)) regset
              else Inr regset) of
          Inl err \<Rightarrow> (Failure err, regset)
        | Inr regset1 \<Rightarrow>
           let xcr0 = Uint64 (take 8 (drop (nat I386_LINUX_XSAVE_XCR0_OFFSET) (fst xstateargs)));
               xsaveheader = take (nat XSAVE_HEADER_LEN)
                               (drop (nat XSAVE_HEADER_START) (fst xstateargs));
               xstate_bv = Uint64 (take 8 xsaveheader);
               xcomp_bv = Uint64 (take 8 (drop 8 xsaveheader))
           in
             if xcomp_bv AND push_bit 63 1 \<noteq> 0 then (Success, regset1)
             else if \<not> hasAVX xstate_bv then (Success, regset1)
             else
               let avxstate = (drop (nat XSAVE_EXTENDED_REGION_START) (fst xstateargs),
                               snd xstateargs);
                   regset2 = regset1\<lparr>AvxState := True\<rparr>
               in
                 (case slice_upto avxstate 256 of
                   None \<Rightarrow> (Panicked, regset2)
                 | Some src \<Rightarrow>
                    let regset3 = regset2\<lparr>YmmSpace := go_copy (YmmSpace regset2) (fst src)\<rparr>
                    in
                      if \<not> hasZMM_Hi256 xstate_bv then (Success, regset3)
                      else
                        let off = (if xstateZMMHi256Offset = 0
                                   then (if hasPKRU xcr0 \<and> len xstateargs = 2440
                                         then 896 else 1152)
                                   else xstateZMMHi256Offset);
                            regset4 = regset3\<lparr>zmmHi256offset := off\<rparr>
                        in
                          (case slice_from xstateargs off of
                            None \<Rightarrow> (Panicked, regset4)
                          | Some avx512state \<Rightarrow>
                             let regset5 = regset4\<lparr>Avx512State := True\<rparr> in
                               (case slice_upto avx512state 512 of
                                 None \<Rightarrow> (Panicked, regset5)
                               | Some src512 \<Rightarrow>
                                  (Success, regset5\<lparr>ZmmSpace :=
                                     go_copy (ZmmSpace regset5) (fst src512)\<rparr>)))))"

section \<open>SetXmmRegister\<close>

definition SetXmmRegister :: "AMD64Xstate \<Rightarrow> int \<Rightarrow> byte list \<Rightarrow> status \<times> AMD64Xstate" where
  "SetXmmRegister xstate n val =
     (if n \<ge> 16 then (Failure (ErrNotSupported n), xstate)
      else if length val > 64 then (Failure (ErrTooLarge n (int (length val))), xstate)
      else
        let xmmval = (if length val > 16 then take 16 val else val);
            rest = drop (length xmmval) val;
            xmmpos = go_add XSAVE_XMM_REGION_START (go_mul n 16)
        in
          if xmmpos \<ge> int (length (Xsave xstate)) then (Failure (ErrNotInXsave n), xstate)
          else
            (case copy_at (Xsave xstate) xmmpos xmmval of
              None \<Rightarrow> (Panicked, xstate)
            | Some xsave1 \<Rightarrow>
               let xstate1 = xstate\<lparr>Xsave := xsave1\<rparr> in
                 if length rest = 0 then (Success, xstate1)
                 else
                   let ymmval = (if length rest > 16 then take 16 rest else rest);
                       rest2 = drop (length ymmval) rest;
                       ymmpos = go_add XSAVE_EXTENDED_REGION_START (go_mul n 16)
                   in
                     if ymmpos \<ge> int (length (Xsave xstate1))
                     then (Failure (ErrYmmNotInXsave n (go_add 16 (int (length ymmval)))), xstate1)
                     else
                       (case copy_at (Xsave xstate1) ymmpos ymmval of
                         None \<Rightarrow> (Panicked, xstate1)
                       | Some xsave2 \<Rightarrow>
                          let xstate2 = xstate1\<lparr>Xsave := xsave2\<rparr> in
                            if length rest2 = 0 then (Success, xstate2)
                            else
                              let zmmval = rest2;
                                  zmmpos = go_add (zmmHi256offset xstate2) (go_mul n 32)
                              in
                                if zmmpos \<ge> int (length (Xsave xstate2))
                                then (Failure (ErrZmmNotInXsave n
                                         (go_add 32 (int (length zmmval)))), xstate2)
                                else
                                  (case copy_at (Xsave xstate2) zmmpos zmmval of
                                    None \<Rightarrow> (Panicked, xstate2)
                                  | Some xsave3 \<Rightarrow> (Success, xstate2\<lparr>Xsave := xsave3\<rparr>)))))"

section \<open>Decode: the register list\<close>

text \<open>
  Modelled from the spec: \<open>proc.Register\<close>, \<open>proc.AppendUint64Register\<close> and
  \<open>proc.AppendBytesRegister\<close> belong to package \<open>proc\<close>, which is not part of the source
  at hand. The specification describes the register list as an ordered list of
  (name, value) pairs, a value being a 64-bit number or a byte string; both functions
  append one such pair.
\<close>

datatype regvalue = Uint64Value uint64 | BytesValue "byte list"

type_synonym Register = "string \<times> regvalue"

definition AppendUint64Register :: "Register list \<Rightarrow> string \<Rightarrow> uint64 \<Rightarrow> Register list" where
  "AppendUint64Register regs name v = regs @ [(name, Uint64Value v)]"

definition AppendBytesRegister :: "Register list \<Rightarrow> string \<Rightarrow> byte list \<Rightarrow> Register list" where
  "AppendBytesRegister regs name v = regs @ [(name, BytesValue v)]"

text \<open>\<open>%d\<close> of \<open>fmt.Sprintf\<close> on a number that is not negative.\<close>

definition digit :: "nat \<Rightarrow> char" where
  "digit d = ''0123456789'' ! d"

fun itoa :: "nat \<Rightarrow> string" where
  "itoa n = (if n < 10 then [digit n] else itoa (n div 10) @ [digit (n mod 10)])"

declare itoa.simps [simp del]

definition array_slice :: "'a list \<Rightarrow> nat \<Rightarrow> nat \<Rightarrow> 'a list" where
  \<comment> \<open>\<open>a[lo:hi]\<close> on an array, with \<open>lo \<le> hi \<le> len(a)\<close>\<close>
  "array_slice a lo hi = take (hi - lo) (drop lo a)"

text \<open>
  The two loops of \<open>Decode\<close>. \<open>len(xstate.StSpace)\<close> is 32 and \<open>len(xstate.XmmSpace)\<close>
  is 256, the sizes of the arrays.
\<close>

function st_loop :: "AMD64Xstate \<Rightarrow> nat \<Rightarrow> Register list \<Rightarrow> Register list" where
  "st_loop xstate i regs =
     (if i < 32
      then st_loop xstate (i + 4)
             (AppendBytesRegister regs (''ST('' @ itoa (i div 4) @ '')'')
                (PutUint64 (push_bit 32 (ucast (StSpace xstate ! (i + 1)))
                              OR ucast (StSpace xstate ! i))
                 @ PutUint16 (ucast (StSpace xstate ! (i + 2)))))
      else regs)"
  by pat_completeness auto
termination
  by (relation "measure (\<lambda>(xstate, i, regs). 32 - i)") auto

declare st_loop.simps [simp del]

function xmm_loop :: "AMD64Xstate \<Rightarrow> nat \<Rightarrow> Register list \<Rightarrow> Register list" where
  "xmm_loop xstate i regs =
     (if i < 256
      then
        let n = i div 16;
            regs1 = AppendBytesRegister regs (''XMM'' @ itoa n)
                      (array_slice (XmmSpace xstate) i (i + 16));
            regs3 =
              (if AvxState xstate
               then
                 let regs2 = AppendBytesRegister regs1 (''YMM'' @ itoa n)
                               (array_slice (YmmSpace xstate) i (i + 16))
                 in if Avx512State xstate
                    then AppendBytesRegister regs2 (''ZMM'' @ itoa n)
                           (array_slice (ZmmSpace xstate) (n * 32) ((n + 1) * 32))
                    else regs2
               else regs1)
        in xmm_loop xstate (i + 16) regs3
      else regs)"
  by pat_completeness auto
termination
  by (relation "measure (\<lambda>(xstate, i, regs). 256 - i)") auto

declare xmm_loop.simps [simp del]

definition Decode :: "AMD64Xstate \<Rightarrow> Register list" where
  "Decode xstate =
     (let regs0 = [];
          regs1 = AppendUint64Register regs0 ''CW'' (ucast (Cwd xstate));
          regs2 = AppendUint64Register regs1 ''SW'' (ucast (Swd xstate));
          regs3 = AppendUint64Register regs2 ''TW'' (ucast (Ftw xstate));
          regs4 = AppendUint64Register regs3 ''FOP'' (ucast (Fop xstate));
          regs5 = AppendUint64Register regs4 ''FIP'' (Rip xstate);
          regs6 = AppendUint64Register regs5 ''FDP'' (Rdp xstate);
          regs7 = st_loop xstate 0 regs6;
          regs8 = AppendUint64Register regs7 ''MXCSR'' (ucast (Mxcsr xstate));
          regs9 = AppendUint64Register regs8 ''MXCSR_MASK'' (ucast (MxcrMask xstate))
      in xmm_loop xstate 0 regs9)"

section \<open>The register list in the specification's words\<close>

text \<open>
  The list the specification describes, written out independently of the loops of
  \<open>Decode\<close>: six 64-bit rows; \<open>ST(0)\<close> to \<open>ST(7)\<close>, each the little-endian bytes of the
  two 32-bit mantissa words followed by the low 16 bits of the third word; \<open>MXCSR\<close> and
  its mask; then for each index the \<open>XMM\<close> row, the \<open>YMM\<close> row when AVX is present and,
  under it, the \<open>ZMM\<close> row when AVX-512 is present. \<open>value_size\<close> is the width of a row
  in bytes.
\<close>

definition st_register :: "AMD64Xstate \<Rightarrow> nat \<Rightarrow> Register" where
  "st_register xstate k =
     (''ST('' @ itoa k @ '')'',
      BytesValue (PutUint32 (StSpace xstate ! (4 * k)) @ PutUint32 (StSpace xstate ! (4 * k + 1))
        @ take 2 (PutUint32 (StSpace xstate ! (4 * k + 2)))))"

definition xmm_registers :: "AMD64Xstate \<Rightarrow> nat \<Rightarrow> Register list" where
  "xmm_registers xstate n =
     (''XMM'' @ itoa n, BytesValue (array_slice (XmmSpace xstate) (16 * n) (16 * n + 16)))
     # (if AvxState xstate
        then (''YMM'' @ itoa n, BytesValue (array_slice (YmmSpace xstate) (16 * n) (16 * n + 16)))
             # (if Avx512State xstate
                then [(''ZMM'' @ itoa n,
                       BytesValue (array_slice (ZmmSpace xstate) (32 * n) (32 * n + 32)))]
                else [])
        else [])"

definition register_list :: "AMD64Xstate \<Rightarrow> Register list" where
  "register_list xstate =
     [(''CW'', Uint64Value (ucast (Cwd xstate))),
      (''SW'', Uint64Value (ucast (Swd xstate))),
      (''TW'', Uint64Value (ucast (Ftw xstate))),
      (''FOP'', Uint64Value (ucast (Fop xstate))),
      (''FIP'', Uint64Value (Rip xstate)),
      (''FDP'', Uint64Value (Rdp xstate))]
     @ map (st_register xstate) [0..<8]
     @ [(''MXCSR'', Uint64Value (ucast (Mxcsr xstate))),
        (''MXCSR_MASK'', Uint64Value (ucast (MxcrMask xstate)))]
     @ concat (map (xmm_registers xstate) [0..<16])"

fun value_size :: "regvalue \<Rightarrow> nat" where
  "value_size (Uint64Value v) = 8"
| "value_size (BytesValue v) = length v"

section \<open>Names for what the decoder reads\<close>

text \<open>
  These definitions name parts of \<open>AMD64XstateRead\<close> so that statements about it stay
  readable: the state after the optional legacy read, the three bitmaps it reads from
  the buffer, and the offset it settles on.
\<close>

definition after_legacy :: "bslice \<Rightarrow> bool \<Rightarrow> AMD64Xstate \<Rightarrow> AMD64Xstate" where
  "after_legacy xstateargs readLegacy regset =
     (if readLegacy
      then (case binary_Read (take 512 (fst xstateargs)) regset of
              Inl err \<Rightarrow> regset | Inr r \<Rightarrow> r)
      else regset)"

definition xcomp_bv_of :: "bslice \<Rightarrow> uint64" where
  "xcomp_bv_of xstateargs = Uint64 (take 8 (drop 520 (fst xstateargs)))"

definition xstate_bv_of :: "bslice \<Rightarrow> uint64" where
  "xstate_bv_of xstateargs = Uint64 (take 8 (drop 512 (fst xstateargs)))"

definition xcr0_of :: "bslice \<Rightarrow> uint64" where
  "xcr0_of xstateargs = Uint64 (take 8 (drop 464 (fst xstateargs)))"

definition guess_offset :: "bslice \<Rightarrow> int \<Rightarrow> int" where
  "guess_offset xstateargs hint =
     (if hint = 0 then (if hasPKRU (xcr0_of xstateargs) \<and> len xstateargs = 2440 then 896 else 1152)
      else hint)"

section \<open>Names for what the encoder writes\<close>

text \<open>
  \<open>write_at buf pos src\<close> is the buffer after \<open>copy(buf[pos:], src)\<close> when the slice
  expression is in range; \<open>in_range pos k i\<close> says that index \<open>i\<close> lies among the \<open>k\<close>
  positions that start at \<open>pos\<close>.
\<close>

definition write_at :: "byte list \<Rightarrow> int \<Rightarrow> byte list \<Rightarrow> byte list" where
  "write_at buf pos src = take (nat pos) buf @ go_copy (drop (nat pos) buf) src"

definition in_range :: "int \<Rightarrow> nat \<Rightarrow> nat \<Rightarrow> bool" where
  "in_range pos k i \<longleftrightarrow> pos \<le> int i \<and> int i < pos + int k"

section \<open>Example buffers\<close>

text \<open>A 520-byte buffer: longer than the legacy region, shorter than the header's end.\<close>

definition short_buffer :: bslice where
  "short_buffer = (replicate 520 1, [])"

definition tiny_buffer :: bslice where
  "tiny_buffer = (replicate 100 0, [])"

text \<open>
  600 bytes with the AVX bit of the header bitmap set (byte 512 is 4): first with no
  spare capacity, then with 232 more bytes of backing array after the slice's end.
\<close>

definition avx_short_buffer :: bslice where
  "avx_short_buffer = (replicate 512 0 @ 4 # replicate 87 0, [])"

definition avx_short_buffer_cap :: bslice where
  "avx_short_buffer_cap = (replicate 512 0 @ 4 # replicate 87 0, replicate 232 255)"

text \<open>
  2440 bytes: bit 9 (PKRU) of the bitmap at offset 464 set, bits 2 (AVX) and 6
  (ZMM_Hi256) of the header bitmap set, no compaction, and a marker byte at offset 896.
\<close>

definition pkru_buffer :: bslice where
  "pkru_buffer =
     (replicate 465 0 @ 2 # replicate 46 0 @ 68 # replicate 383 0 @ 171 # replicate 1543 0, [])"

text \<open>600 bytes whose compaction flag has its top bit set (byte 527 is 128), AVX bit set.\<close>

definition compact_buffer :: bslice where
  "compact_buffer = (replicate 512 0 @ 4 # replicate 14 0 @ 128 # replicate 72 0, [])"

text \<open>
  Register states for the encoder: a 2000-byte buffer with the offset 1152 recorded, the
  same buffer with no offset recorded, a 170-byte buffer, a 1160-byte buffer and a
  1000-byte buffer with the offset 1152 recorded; and a 64-byte value whose three slices
  are filled with 1, 2 and 3.
\<close>

definition enc_value :: "byte list" where
  "enc_value = replicate 16 1 @ replicate 16 2 @ replicate 32 3"

definition enc_state :: AMD64Xstate where
  "enc_state = zero_Xstate\<lparr>Xsave := replicate 2000 0, zmmHi256offset := 1152\<rparr>"

definition stale_enc_state :: AMD64Xstate where
  "stale_enc_state = zero_Xstate\<lparr>Xsave := replicate 2000 0\<rparr>"

definition short_enc_state :: AMD64Xstate where
  "short_enc_state = zero_Xstate\<lparr>Xsave := replicate 170 0\<rparr>"

definition partial_enc_state :: AMD64Xstate where
  "partial_enc_state = zero_Xstate\<lparr>Xsave := replicate 1160 0, zmmHi256offset := 1152\<rparr>"

definition mid_enc_state :: AMD64Xstate where
  "mid_enc_state = zero_Xstate\<lparr>Xsave := replicate 1000 0, zmmHi256offset := 1152\<rparr>"

text \<open>
  A state with both extensions marked present, and a 624-byte buffer whose bytes 208 to
  223 (the slot of \<open>XMM3\<close>) are 7, with a state whose \<open>Xsave\<close> is that buffer.
\<close>

definition full_state :: AMD64Xstate where
  "full_state = zero_Xstate\<lparr>AvxState := True, Avx512State := True\<rparr>"

definition rt_buffer :: bslice where
  "rt_buffer = (replicate 208 0 @ replicate 16 7 @ replicate 400 0, [])"

definition rt_state :: AMD64Xstate where
  "rt_state = zero_Xstate\<lparr>Xsave := fst rt_buffer\<rparr>"

section \<open>Basic facts\<close>

lemmas layout_defs = XSAVE_XMM_REGION_START_def XSAVE_HEADER_START_def XSAVE_HEADER_LEN_def
  XSAVE_EXTENDED_REGION_START_def XSAVE_SSE_REGION_LEN_def I386_LINUX_XSAVE_XCR0_OFFSET_def

lemma top_bit_iff: "(w :: uint64) AND push_bit 63 1 \<noteq> 0 \<longleftrightarrow> bit w 63"
  unfolding push_bit_of_1 by (rule arg_cong [where f=Not, OF and_exp_eq_0_iff_not_bit, simplified])

lemma binary_Read_ok: "512 \<le> length rdr \<Longrightarrow> \<exists>r. binary_Read rdr regset = Inr r"
  unfolding binary_Read_def by (simp only: linorder_not_less[symmetric] if_False) blast

lemma binary_Read_frame:
  assumes "binary_Read rdr regset = Inr r"
  shows "AvxState r = AvxState regset" "Avx512State r = Avx512State regset"
    "Xsave r = Xsave regset" "YmmSpace r = YmmSpace regset" "ZmmSpace r = ZmmSpace regset"
    "zmmHi256offset r = zmmHi256offset regset"
  using assms
  by (auto simp add: binary_Read_def simp del: upt_rec_numeral split: if_splits)

lemma legacy_read:
  "576 < length (fst xstateargs) \<Longrightarrow>
   (if readLegacy then binary_Read (take 512 (fst xstateargs)) regset else Inr regset)
     = Inr (after_legacy xstateargs readLegacy regset)"
  using binary_Read_ok [of "take 512 (fst xstateargs)" regset]
  by (auto simp add: after_legacy_def)

lemma after_legacy_frame:
  "AvxState (after_legacy xs rl regset) = AvxState regset"
  "Avx512State (after_legacy xs rl regset) = Avx512State regset"
  "Xsave (after_legacy xs rl regset) = Xsave regset"
  "YmmSpace (after_legacy xs rl regset) = YmmSpace regset"
  "ZmmSpace (after_legacy xs rl regset) = ZmmSpace regset"
  "zmmHi256offset (after_legacy xs rl regset) = zmmHi256offset regset"
  by (auto simp add: after_legacy_def binary_Read_frame split: sum.splits)

lemma header_slices:
  "take 8 (drop 8 (take 64 (drop 512 xs))) = take 8 (drop 520 xs)"
  "take 8 (take 64 (drop 512 xs)) = take 8 (drop 512 xs)"
  by (simp_all add: drop_take)


lemma case_if_option:
  "(case (if c then None else Some x) of None \<Rightarrow> a | Some y \<Rightarrow> b y) = (if c then a else b x)"
  by simp

lemma slice_upto_avx:
  assumes "576 < length (fst xs)"
  shows "slice_upto (drop 576 (fst xs), snd xs) 256 =
     (if cap xs < 832 then None
      else Some (take 256 (drop 576 (fst xs @ snd xs)), drop 832 (fst xs @ snd xs)))"
  using assms by (auto simp add: slice_upto_def cap_def)

lemma slice_from_iff:
  "slice_from xs off =
     (if off < 0 \<or> len xs < off then None else Some (drop (nat off) (fst xs), snd xs))"
  by (auto simp add: slice_from_def)

lemma slice_upto_avx512:
  assumes "0 \<le> off" "off \<le> len xs"
  shows "slice_upto (drop (nat off) (fst xs), snd xs) 512 =
     (if cap xs < off + 512 then None
      else Some (take 512 (drop (nat off) (fst xs @ snd xs)),
                 drop (nat off + 512) (fst xs @ snd xs)))"
  using assms by (auto simp add: slice_upto_def cap_def len_def add.commute)


lemma AMD64XstateRead_long:
  assumes "576 < length (fst xstateargs)"
  shows "AMD64XstateRead xstateargs readLegacy regset hint =
     (let regset1 = after_legacy xstateargs readLegacy regset in
      if bit (xcomp_bv_of xstateargs) 63 then (Success, regset1)
      else if \<not> hasAVX (xstate_bv_of xstateargs) then (Success, regset1)
      else if cap xstateargs < 832 then (Panicked, regset1\<lparr>AvxState := True\<rparr>)
      else
        let regset3 = regset1\<lparr>AvxState := True,
              YmmSpace := go_copy (YmmSpace regset1)
                            (take 256 (drop 576 (fst xstateargs @ snd xstateargs)))\<rparr>;
            off = guess_offset xstateargs hint
        in
          if \<not> hasZMM_Hi256 (xstate_bv_of xstateargs) then (Success, regset3)
          else if off < 0 \<or> len xstateargs < off
          then (Panicked, regset3\<lparr>zmmHi256offset := off\<rparr>)
          else if cap xstateargs < off + 512
          then (Panicked, regset3\<lparr>zmmHi256offset := off, Avx512State := True\<rparr>)
          else (Success, regset3\<lparr>zmmHi256offset := off, Avx512State := True,
                  ZmmSpace := go_copy (ZmmSpace regset1)
                     (take 512 (drop (nat off) (fst xstateargs @ snd xstateargs)))\<rparr>))"
proof -
  have a: "\<not> XSAVE_HEADER_START + XSAVE_HEADER_LEN \<ge> len xstateargs"
    using assms by (simp add: len_def layout_defs)
  show ?thesis
    unfolding AMD64XstateRead_def
    apply (simp only: a if_False)
    apply (simp only: layout_defs nat_numeral legacy_read [OF assms] sum.case)
    apply (simp only: Let_def header_slices top_bit_iff)
    apply (simp only: flip: xcomp_bv_of_def xstate_bv_of_def xcr0_of_def)
    apply (simp only: flip: guess_offset_def)
    apply (simp only: slice_upto_avx [OF assms] slice_from_iff case_if_option fst_conv)
    apply (simp add: slice_upto_avx512 after_legacy_frame linorder_not_less del: upt_rec_numeral)
    done
qed

lemma after_legacy_False: "after_legacy xs False regset = regset"
  by (simp add: after_legacy_def)

lemma Uint64_top_bit: "bit (Uint64 b) 63 \<longleftrightarrow> bit (b ! 7) 7"
  by (auto simp add: Uint64_def bit_or_iff bit_push_bit_iff bit_ucast_iff
      dest: bit_imp_le_length)

lemma xcomp_top_bit:
  "528 \<le> length (fst xs) \<Longrightarrow> bit (xcomp_bv_of xs) 63 \<longleftrightarrow> bit (fst xs ! 527) 7"
  by (simp add: xcomp_bv_of_def Uint64_top_bit)

section \<open>Facts about the encoder\<close>

lemma wrap64_id: "- (2 ^ 63) \<le> x \<Longrightarrow> x < 2 ^ 63 \<Longrightarrow> wrap64 x = x"
  by (simp add: wrap64_def mod_pos_pos_trivial)

lemma go_mul_small:
  assumes "0 \<le> n" "n < 16"
  shows "go_mul n 16 = n * 16" "go_mul n 32 = n * 32"
  using assms by (simp_all add: go_mul_def wrap64_id)

lemma go_add_small:
  assumes "0 \<le> a" "a < 1000" "0 \<le> b" "b < 1000"
  shows "go_add a b = a + b"
  using assms by (simp add: go_add_def wrap64_id)

lemma copy_at_write_at:
  "0 \<le> pos \<Longrightarrow> pos \<le> int (length buf) \<Longrightarrow> copy_at buf pos src = Some (write_at buf pos src)"
  by (simp add: copy_at_def write_at_def)

lemma copy_at_neg: "pos < 0 \<Longrightarrow> copy_at buf pos src = None"
  by (simp add: copy_at_def)

lemma length_write_at:
  "0 \<le> pos \<Longrightarrow> pos \<le> int (length buf) \<Longrightarrow> length (write_at buf pos src) = length buf"
  by (auto simp add: write_at_def go_copy_def min_def)

lemma nth_write_at:
  assumes "0 \<le> pos" "pos \<le> int (length buf)" "i < length buf"
  shows "write_at buf pos src ! i =
     (if in_range pos (length src) i then src ! (i - nat pos) else buf ! i)"
  using assms
  by (auto simp add: write_at_def go_copy_def in_range_def nth_append min_def)



lemma take16_if: "(if 16 < length v then take 16 v else v) = take 16 v"
  by simp

lemma drop_len_take16: "drop (length (take 16 v)) v = drop 16 v"
  by (simp add: min_def)

lemma SetXmmRegister_paths:
  assumes n: "0 \<le> n" "n < 16" and L: "length val \<le> 64"
  shows "SetXmmRegister xstate n val =
     (let buf = Xsave xstate;
          xmmpos = 160 + n * 16;
          ymmpos = 576 + n * 16;
          zmmpos = go_add (zmmHi256offset xstate) (n * 32)
      in
        if int (length buf) \<le> xmmpos then (Failure (ErrNotInXsave n), xstate)
        else
          let b1 = write_at buf xmmpos (take 16 val) in
            if length val \<le> 16 then (Success, xstate\<lparr>Xsave := b1\<rparr>)
            else if int (length buf) \<le> ymmpos
            then (Failure (ErrYmmNotInXsave n (16 + int (min (length val - 16) 16))),
                  xstate\<lparr>Xsave := b1\<rparr>)
            else
              let b2 = write_at b1 ymmpos (take 16 (drop 16 val)) in
                if length val \<le> 32 then (Success, xstate\<lparr>Xsave := b2\<rparr>)
                else if int (length buf) \<le> zmmpos
                then (Failure (ErrZmmNotInXsave n (int (length val))), xstate\<lparr>Xsave := b2\<rparr>)
                else if zmmpos < 0 then (Panicked, xstate\<lparr>Xsave := b2\<rparr>)
                else (Success, xstate\<lparr>Xsave := write_at b2 zmmpos (drop 32 val)\<rparr>))"
proof -
  have x: "go_add XSAVE_XMM_REGION_START (go_mul n 16) = 160 + n * 16"
    using n by (simp add: go_mul_small go_add_small layout_defs)
  have y: "go_add XSAVE_EXTENDED_REGION_START (go_mul n 16) = 576 + n * 16"
    using n by (simp add: go_mul_small go_add_small layout_defs)
  have z: "go_mul n 32 = n * 32"
    using n by (simp add: go_mul_small)
  have e: "go_add 16 (int (length (take 16 (drop 16 val)))) = 16 + int (min (length val - 16) 16)"
     "go_add 32 (int (length (drop 32 val))) = int (length val)" if "32 < length val"
    using L that by (simp_all add: go_add_small min_def)
  have c1: "\<not> n \<ge> 16" "\<not> length val > 64" using n L by simp_all
  let ?buf = "Xsave xstate"
  let ?x = "160 + n * 16"
  let ?y = "576 + n * 16"
  let ?z = "go_add (zmmHi256offset xstate) (n * 32)"
  let ?b1 = "write_at ?buf ?x (take 16 val)"
  let ?b2 = "write_at ?b1 ?y (take 16 (drop 16 val))"
  have p: "0 \<le> ?x" "0 \<le> ?y" using n by simp_all
  have l1: "length ?b1 = length ?buf" if "?x < int (length ?buf)"
    using that p by (simp add: length_write_at)
  have l2: "length ?b2 = length ?buf" if "?x < int (length ?buf)" "?y < int (length ?buf)"
    using that p l1 by (simp add: length_write_at)
  note defs = SetXmmRegister_def x y z Let_def
  note simps = c1 take16_if drop_len_take16 copy_at_write_at copy_at_neg
  show ?thesis
  proof (cases "int (length ?buf) \<le> ?x")
    case True
    then show ?thesis unfolding defs by (simp add: simps)
  next
    case f1: False
    show ?thesis
    proof (cases "length val \<le> 16")
      case True
      with f1 p show ?thesis unfolding defs by (simp add: simps)
    next
      case g1: False
      show ?thesis
      proof (cases "int (length ?buf) \<le> ?y")
        case True
        with f1 g1 p l1 show ?thesis unfolding defs by (simp add: simps go_add_small min_def)
      next
        case f2: False
        show ?thesis
        proof (cases "length val \<le> 32")
          case True
          with f1 g1 f2 p l1 show ?thesis unfolding defs by (simp add: simps)
        next
          case g2: False
          have e2: "go_add 32 (int (length val) - 32) = int (length val)"
            using g2 L by (simp add: go_add_small)
          have g2': "16 < length val - 16"
            using g2 by simp
          show ?thesis
          proof (cases "int (length ?buf) \<le> ?z")
            case True
            with f1 g1 f2 g2 g2' p l1 l2 show ?thesis unfolding defs by (simp add: simps e2)
          next
            case f3: False
            show ?thesis
            proof (cases "?z < 0")
              case True
              with f1 g1 f2 g2 g2' f3 p l1 l2 show ?thesis unfolding defs by (simp add: simps)
            next
              case False
              with f1 g1 f2 g2 g2' f3 p l1 l2 show ?thesis unfolding defs by (simp add: simps)
            qed
          qed
        qed
      qed
    qed
  qed
qed

lemma Set_fail1:
  assumes "0 \<le> n" "n < 16" "length val \<le> 64"
    and "int (length (Xsave xstate)) \<le> 160 + n * 16"
  shows "SetXmmRegister xstate n val = (Failure (ErrNotInXsave n), xstate)"
  using assms(4) by (simp add: SetXmmRegister_paths [OF assms(1-3)] Let_def)

lemma Set_ok1:
  assumes "0 \<le> n" "n < 16" "length val \<le> 16"
    and "160 + n * 16 < int (length (Xsave xstate))"
  shows "SetXmmRegister xstate n val =
    (Success, xstate\<lparr>Xsave := write_at (Xsave xstate) (160 + n * 16) (take 16 val)\<rparr>)"
proof -
  have L: "length val \<le> 64" using assms(3) by simp
  show ?thesis
    using assms(3,4) by (simp add: SetXmmRegister_paths [OF assms(1,2) L] Let_def)
qed

lemma Set_fail2:
  assumes "0 \<le> n" "n < 16" "length val \<le> 64" "16 < length val"
    and "160 + n * 16 < int (length (Xsave xstate))"
    and "int (length (Xsave xstate)) \<le> 576 + n * 16"
  shows "SetXmmRegister xstate n val =
    (Failure (ErrYmmNotInXsave n (16 + int (min (length val - 16) 16))),
     xstate\<lparr>Xsave := write_at (Xsave xstate) (160 + n * 16) (take 16 val)\<rparr>)"
  using assms(4-6) by (simp add: SetXmmRegister_paths [OF assms(1-3)] Let_def)

lemma Set_ok2:
  assumes "0 \<le> n" "n < 16" "length val \<le> 32" "16 < length val"
    and "576 + n * 16 < int (length (Xsave xstate))"
  shows "SetXmmRegister xstate n val =
    (Success, xstate\<lparr>Xsave :=
       write_at (write_at (Xsave xstate) (160 + n * 16) (take 16 val))
         (576 + n * 16) (take 16 (drop 16 val))\<rparr>)"
proof -
  have L: "length val \<le> 64" using assms(3) by simp
  show ?thesis
    using assms(1-5) by (simp add: SetXmmRegister_paths [OF assms(1,2) L] Let_def)
qed

lemma Set_fail3:
  assumes "0 \<le> n" "n < 16" "length val \<le> 64" "32 < length val"
    and "576 + n * 16 < int (length (Xsave xstate))"
    and "int (length (Xsave xstate)) \<le> go_add (zmmHi256offset xstate) (n * 32)"
  shows "SetXmmRegister xstate n val =
    (Failure (ErrZmmNotInXsave n (int (length val))),
     xstate\<lparr>Xsave :=
       write_at (write_at (Xsave xstate) (160 + n * 16) (take 16 val))
         (576 + n * 16) (take 16 (drop 16 val))\<rparr>)"
  using assms(1,2,4-6) by (simp add: SetXmmRegister_paths [OF assms(1-3)] Let_def)

lemma Set_panic3:
  assumes "0 \<le> n" "n < 16" "length val \<le> 64" "32 < length val"
    and "576 + n * 16 < int (length (Xsave xstate))"
    and "go_add (zmmHi256offset xstate) (n * 32) < 0"
  shows "SetXmmRegister xstate n val =
    (Panicked,
     xstate\<lparr>Xsave :=
       write_at (write_at (Xsave xstate) (160 + n * 16) (take 16 val))
         (576 + n * 16) (take 16 (drop 16 val))\<rparr>)"
  using assms(1,2,4-6) by (simp add: SetXmmRegister_paths [OF assms(1-3)] Let_def)

lemma Set_ok3:
  assumes "0 \<le> n" "n < 16" "length val \<le> 64" "32 < length val"
    and "576 + n * 16 < int (length (Xsave xstate))"
    and "0 \<le> go_add (zmmHi256offset xstate) (n * 32)"
    and "go_add (zmmHi256offset xstate) (n * 32) < int (length (Xsave xstate))"
  shows "SetXmmRegister xstate n val =
    (Success,
     xstate\<lparr>Xsave :=
       write_at (write_at (write_at (Xsave xstate) (160 + n * 16) (take 16 val))
         (576 + n * 16) (take 16 (drop 16 val)))
         (go_add (zmmHi256offset xstate) (n * 32)) (drop 32 val)\<rparr>)"
  using assms(1,2,4-7) by (simp add: SetXmmRegister_paths [OF assms(1-3)] Let_def)

lemma go_add_eval: "go_add 1152 96 = 1248" "go_add 0 288 = 288" "go_add 1152 0 = 1152"
  by (simp_all add: go_add_def wrap64_def)

lemma enc_state_simps:
  "Xsave enc_state = replicate 2000 0" "zmmHi256offset enc_state = 1152"
  "Xsave stale_enc_state = replicate 2000 0" "zmmHi256offset stale_enc_state = 0"
  "Xsave short_enc_state = replicate 170 0"
  by (simp_all add: enc_state_def stale_enc_state_def short_enc_state_def zero_Xstate_def)

lemma enc_value_length: "length enc_value = 64"
  by (simp add: enc_value_def)

lemma partial_enc_state_simps:
  "Xsave partial_enc_state = replicate 1160 0" "zmmHi256offset partial_enc_state = 1152"
  by (simp_all add: partial_enc_state_def zero_Xstate_def)

lemma slice_write_at_same:
  assumes "0 \<le> pos" "nat pos + length src \<le> length buf"
  shows "take (length src) (drop (nat pos) (write_at buf pos src)) = src"
  using assms by (simp add: write_at_def go_copy_def min_def)

lemma slice_write_at_before:
  assumes "0 \<le> pos" "pos \<le> int (length buf)" "q + k \<le> nat pos"
  shows "take k (drop q (write_at buf pos src)) = take k (drop q buf)"
  using assms
  by (intro nth_equalityI) (auto simp add: length_write_at nth_write_at in_range_def)

lemma mid_enc_state_simps:
  "Xsave mid_enc_state = replicate 1000 0" "zmmHi256offset mid_enc_state = 1152"
  by (simp_all add: mid_enc_state_def zero_Xstate_def)

section \<open>Facts about the register list\<close>

lemma itoa_small:
  "itoa 0 = ''0''" "itoa 1 = ''1''" "itoa 2 = ''2''" "itoa 3 = ''3''" "itoa 4 = ''4''"
  "itoa 5 = ''5''" "itoa 6 = ''6''" "itoa 7 = ''7''" "itoa 8 = ''8''" "itoa 9 = ''9''"
  "itoa 10 = ''10''" "itoa 11 = ''11''" "itoa 12 = ''12''" "itoa 13 = ''13''"
  "itoa 14 = ''14''" "itoa 15 = ''15''" "itoa (Suc 0) = ''1''"
  by (simp_all add: itoa.simps digit_def)

lemma PutUint64_halves:
  "PutUint64 (push_bit 32 (ucast (hi :: uint32)) OR ucast (lo :: uint32))
     = PutUint32 lo @ PutUint32 hi"
  unfolding PutUint64_def PutUint32_def
  apply simp
  apply (intro conjI; rule bit_word_eqI)
         apply (auto simp add: bit_simps dest: bit_imp_le_length)
  done

lemma PutUint16_low: "PutUint16 (ucast (w :: uint32)) = take 2 (PutUint32 w)"
  unfolding PutUint16_def PutUint32_def
  apply simp
  apply (intro conjI; rule bit_word_eqI)
   apply (auto simp add: bit_simps dest: bit_imp_le_length)
  done


lemma st_loop_closed:
  "k \<le> 8 \<Longrightarrow> st_loop xstate (4 * k) regs = regs @ map (st_register xstate) [k..<8]"
proof (induction "8 - k" arbitrary: k regs)
  case 0
  then show ?case by (simp add: st_loop.simps)
next
  case (Suc d)
  then have k: "k < 8" by simp
  have step: "st_loop xstate (4 * k) regs =
      st_loop xstate (4 * Suc k) (regs @ [st_register xstate k])"
    using k
    by (subst st_loop.simps)
       (simp add: AppendBytesRegister_def st_register_def PutUint64_halves PutUint16_low
          add.commute)
  have "st_loop xstate (4 * Suc k) (regs @ [st_register xstate k])
      = (regs @ [st_register xstate k]) @ map (st_register xstate) [Suc k..<8]"
    using Suc.hyps(2) k by (intro Suc.hyps(1)) simp_all
  with step show ?case
    using k by (simp add: upt_conv_Cons)
qed

lemma xmm_loop_closed:
  "k \<le> 16 \<Longrightarrow>
   xmm_loop xstate (16 * k) regs = regs @ concat (map (xmm_registers xstate) [k..<16])"
proof (induction "16 - k" arbitrary: k regs)
  case 0
  then show ?case by (simp add: xmm_loop.simps)
next
  case (Suc d)
  then have k: "k < 16" by simp
  have step: "xmm_loop xstate (16 * k) regs =
      xmm_loop xstate (16 * Suc k) (regs @ xmm_registers xstate k)"
    using k
    by (subst xmm_loop.simps)
       (simp add: AppendBytesRegister_def xmm_registers_def Let_def add.commute mult.commute)
  have "xmm_loop xstate (16 * Suc k) (regs @ xmm_registers xstate k)
      = (regs @ xmm_registers xstate k) @ concat (map (xmm_registers xstate) [Suc k..<16])"
    using Suc.hyps(2) k by (intro Suc.hyps(1)) simp_all
  with step show ?case
    using k by (simp add: upt_conv_Cons)
qed

lemma Decode_register_list: "Decode xstate = register_list xstate"
  using st_loop_closed [of 0 xstate] xmm_loop_closed [of 0 xstate]
  by (simp add: Decode_def register_list_def AppendUint64Register_def Let_def
      del: upt_rec_numeral)


lemma upt_8: "[0..<8] = [0, 1, 2, 3, 4, 5, 6, 7]"
  by code_simp

lemma upt_16: "[0..<16] = [0, 1, 2, 3, 4, 5, 6, 7, 8, 9, 10, 11, 12, 13, 14, 15]"
  by code_simp

lemma length_PutUint32: "length (PutUint32 w) = 4"
  by (simp add: PutUint32_def)

lemma st_register_size: "value_size (snd (st_register xstate k)) = 10"
  by (simp add: st_register_def length_PutUint32)

lemma xmm_registers_sizes:
  assumes "wf_Xstate xstate" "n < 16"
  shows "map (value_size \<circ> snd) (xmm_registers xstate n) =
     16 # (if AvxState xstate then 16 # (if Avx512State xstate then [32] else []) else [])"
  using assms by (simp add: xmm_registers_def wf_Xstate_def array_slice_def)

lemma register_list_sizes:
  assumes "wf_Xstate xstate"
  shows "map (value_size \<circ> snd) (register_list xstate) =
     replicate 6 8 @ replicate 8 10 @ [8, 8]
     @ concat (replicate 16
         (16 # (if AvxState xstate then 16 # (if Avx512State xstate then [32] else []) else [])))"
proof -
  let ?row = "16 # (if AvxState xstate then 16 # (if Avx512State xstate then [32] else []) else [])"
  have r8: "replicate 8 x = [x, x, x, x, x, x, x, x]" for x :: nat
    by code_simp
  have st: "map (value_size \<circ> snd) (map (st_register xstate) [0..<8]) = replicate 8 10"
    by (simp add: st_register_size upt_8 r8)
  have "map (map (value_size \<circ> snd) \<circ> xmm_registers xstate) [0..<16]
      = map (\<lambda>n. ?row) [0..<16]"
    by (rule map_cong [OF refl]) (simp add: xmm_registers_sizes [OF assms])
  then have xmm: "map (value_size \<circ> snd) (concat (map (xmm_registers xstate) [0..<16]))
      = concat (replicate 16 ?row)"
    by (simp add: map_concat map_replicate_const del: upt_rec_numeral)
  show ?thesis
    unfolding register_list_def map_append st xmm
    by (simp add: numeral_eq_Suc)
qed

lemma register_list_names_distinct: "distinct (map fst (register_list xstate))"
  by (cases "AvxState xstate"; cases "Avx512State xstate")
     (simp_all add: register_list_def st_register_def xmm_registers_def itoa_small upt_8 upt_16)

lemma lookup_XMM3:
  "map_of (register_list xstate) ''XMM3''
     = Some (BytesValue (array_slice (XmmSpace xstate) 48 64))"
  by (cases "AvxState xstate"; cases "Avx512State xstate")
     (simp_all add: register_list_def st_register_def xmm_registers_def itoa_small upt_8 upt_16)

lemma after_legacy_XmmSpace:
  "576 < length (fst xs) \<Longrightarrow>
   XmmSpace (after_legacy xs True regset) = take 256 (drop 160 (fst xs))"
  by (simp add: after_legacy_def binary_Read_def drop_take del: upt_rec_numeral)

lemma AMD64XstateRead_XmmSpace:
  "576 < length (fst xs) \<Longrightarrow>
   XmmSpace (snd (AMD64XstateRead xs True regset hint)) = take 256 (drop 160 (fst xs))"
  by (simp add: AMD64XstateRead_long Let_def after_legacy_XmmSpace)

lemma AMD64XstateRead_Xsave:
  "Xsave (snd (AMD64XstateRead xs rl regset hint)) = Xsave regset"
proof (cases "576 < length (fst xs)")
  case True
  then show ?thesis
    by (simp add: AMD64XstateRead_long Let_def after_legacy_frame)
next
  case False
  then show ?thesis
    by (simp add: AMD64XstateRead_def len_def layout_defs)
qed

lemma write_at_same:
  assumes "0 \<le> pos" "nat pos + k \<le> length buf"
  shows "write_at buf pos (take k (drop (nat pos) buf)) = buf"
  using assms
  by (intro nth_equalityI) (auto simp add: length_write_at nth_write_at in_range_def)


lemma Decode_XMM3:
  "map_of (Decode xstate) ''XMM3'' = Some (BytesValue (take 16 (drop 48 (XmmSpace xstate))))"
  by (simp add: Decode_register_list lookup_XMM3 array_slice_def)

section \<open>The decoder on short buffers\<close>

text \<open>
  Claim C1, as amended. For every buffer shorter than header start plus header length
  (576 bytes) \<open>AMD64XstateRead\<close> returns nil and leaves the register state as it was:
  neither AVX nor AVX-512 is marked present, and the legacy state is not filled in,
  whatever \<open>readLegacy\<close> says and however long the buffer is. No error is returned.
\<close>

theorem short_buffer_unchanged:
  "length (fst xstateargs) < 576 \<Longrightarrow>
   AMD64XstateRead xstateargs readLegacy regset hint = (Success, regset)"
  by (simp add: AMD64XstateRead_def len_def layout_defs)

theorem short_buffer_unchanged_witness:
  "AMD64XstateRead short_buffer True zero_Xstate 0 = (Success, zero_Xstate)"
  using short_buffer_unchanged [of short_buffer True zero_Xstate 0]
  by (simp add: short_buffer_def)

text \<open>
  Claim C1 as stated fails. With the legacy parse requested, a 100-byte buffer gives no
  error, and a 520-byte buffer (at least the 512 bytes of the legacy region) leaves the
  legacy state untouched: the control word stays 0 although the buffer's first two bytes
  read 257.
\<close>

theorem short_buffer_legacy_counterexample:
  "fst (AMD64XstateRead tiny_buffer True zero_Xstate 0) = Success \<and>
   Cwd (snd (AMD64XstateRead short_buffer True zero_Xstate 0)) = 0 \<and>
   Uint16 (take 2 (fst short_buffer)) = 257"
  by (simp add: AMD64XstateRead_def len_def layout_defs tiny_buffer_def short_buffer_def
      zero_Xstate_def Uint16_def)

section \<open>The decoder on buffers that hold the header\<close>

text \<open>
  Claim C8. For every buffer in which the top bit (bit 63) of the 64-bit compaction flag
  that follows the header bitmap is set (bit 7 of byte 527), \<open>AMD64XstateRead\<close> returns
  nil and the AVX flag of a state that did not have it stays clear, whatever the header
  bitmap says.
\<close>

theorem compact_no_avx:
  assumes "528 \<le> length (fst xstateargs)"
    and "bit (fst xstateargs ! 527) 7"
    and "\<not> AvxState regset"
  shows "fst (AMD64XstateRead xstateargs readLegacy regset hint) = Success \<and>
         \<not> AvxState (snd (AMD64XstateRead xstateargs readLegacy regset hint))"
proof (cases "576 < length (fst xstateargs)")
  case True
  with assms show ?thesis
    by (simp add: AMD64XstateRead_long xcomp_top_bit after_legacy_frame)
next
  case False
  with assms show ?thesis
    by (simp add: AMD64XstateRead_def len_def layout_defs)
qed

theorem compact_no_avx_witness:
  "hasAVX (xstate_bv_of compact_buffer) \<and>
   fst (AMD64XstateRead compact_buffer True zero_Xstate 0) = Success \<and>
   \<not> AvxState (snd (AMD64XstateRead compact_buffer True zero_Xstate 0))"
proof -
  have bv: "xstate_bv_of compact_buffer = 4"
    by (simp add: xstate_bv_of_def compact_buffer_def Uint64_def)
  have b: "fst compact_buffer ! 527 = 128" "length (fst compact_buffer) = 600"
    by (simp_all add: compact_buffer_def nth_append)
  have z: "\<not> AvxState zero_Xstate"
    by (simp add: zero_Xstate_def)
  show ?thesis
    using compact_no_avx [of compact_buffer zero_Xstate True 0] z
    by (simp add: bv b hasAVX_def)
qed

text \<open>
  Claim C9. Starting from a state in which AVX-512 presence implies AVX presence, the
  state \<open>AMD64XstateRead\<close> leaves behind has the same property, whether the call
  returns nil, returns an error or panics.
\<close>

theorem avx512_implies_avx:
  assumes "Avx512State regset \<longrightarrow> AvxState regset"
  shows "Avx512State (snd (AMD64XstateRead xstateargs readLegacy regset hint))
     \<longrightarrow> AvxState (snd (AMD64XstateRead xstateargs readLegacy regset hint))"
proof (cases "576 < length (fst xstateargs)")
  case True
  with assms show ?thesis
    by (simp add: AMD64XstateRead_long Let_def after_legacy_frame)
next
  case False
  with assms show ?thesis
    by (simp add: AMD64XstateRead_def len_def layout_defs)
qed

theorem avx512_implies_avx_witness:
  "Avx512State (snd (AMD64XstateRead pkru_buffer False zero_Xstate 0)) \<and>
   AvxState (snd (AMD64XstateRead pkru_buffer False zero_Xstate 0))"
proof -
  have l: "length (fst pkru_buffer) = 2440" "len pkru_buffer = 2440"
    by (simp_all add: pkru_buffer_def len_def)
  have c: "cap pkru_buffer = 2440"
    by (simp add: pkru_buffer_def cap_def)
  have comp: "xcomp_bv_of pkru_buffer = 0"
    by (simp add: xcomp_bv_of_def pkru_buffer_def Uint64_def)
  have bv: "xstate_bv_of pkru_buffer = 68"
    by (simp add: xstate_bv_of_def pkru_buffer_def Uint64_def)
  have x0: "xcr0_of pkru_buffer = 512"
    by (simp add: xcr0_of_def pkru_buffer_def Uint64_def)
  have z: "\<not> Avx512State zero_Xstate"
    by (simp add: zero_Xstate_def)
  have a: "Avx512State (snd (AMD64XstateRead pkru_buffer False zero_Xstate 0))"
    by (simp add: AMD64XstateRead_long l c comp bv x0 hasAVX_def hasZMM_Hi256_def
        hasPKRU_def guess_offset_def Let_def)
  show ?thesis
    using avx512_implies_avx [of zero_Xstate pkru_buffer False 0] z a by simp
qed

text \<open>
  Claim C4. When the decoder reaches the AVX-512 component (the header is inside the
  buffer, the format is not compact, the AVX and ZMM_Hi256 bits are set and the AVX block
  could be taken), the offset it records on the state is the caller's value when that is
  not zero; otherwise 896 when the bitmap at offset 464 has the PKRU bit and the buffer
  is exactly 2440 bytes long, and 1152 in every other case. That offset is recorded even
  when the call then panics; the call returns nil exactly when the 512 bytes at the
  offset can be taken, and then they are what is copied into \<open>ZmmSpace\<close>.
\<close>

theorem offset_resolution:
  assumes "576 < length (fst xstateargs)"
    and "\<not> bit (xcomp_bv_of xstateargs) 63"
    and "hasAVX (xstate_bv_of xstateargs)"
    and "hasZMM_Hi256 (xstate_bv_of xstateargs)"
    and "832 \<le> cap xstateargs"
    and "r = AMD64XstateRead xstateargs readLegacy regset hint"
    and "off = (if hint \<noteq> 0 then hint
                else if hasPKRU (xcr0_of xstateargs) \<and> length (fst xstateargs) = 2440 then 896
                else 1152)"
  shows "zmmHi256offset (snd r) = off \<and>
         (fst r = Success \<longleftrightarrow>
            0 \<le> off \<and> off \<le> len xstateargs \<and> off + 512 \<le> cap xstateargs) \<and>
         (fst r = Success \<longrightarrow> Avx512State (snd r) \<and>
            ZmmSpace (snd r) = go_copy (ZmmSpace regset)
               (take 512 (drop (nat off) (fst xstateargs @ snd xstateargs))))"
proof -
  have g: "guess_offset xstateargs hint = off"
    using assms(7) by (simp add: guess_offset_def len_def)
  show ?thesis
    using assms(1-5) unfolding assms(6)
    by (simp add: AMD64XstateRead_long Let_def g linorder_not_less after_legacy_frame)
qed

theorem offset_resolution_witness:
  "zmmHi256offset (snd (AMD64XstateRead pkru_buffer False zero_Xstate 0)) = 896 \<and>
   fst (AMD64XstateRead pkru_buffer False zero_Xstate 0) = Success \<and>
   ZmmSpace (snd (AMD64XstateRead pkru_buffer False zero_Xstate 0)) = 171 # replicate 511 0"
proof -
  have l: "length (fst pkru_buffer) = 2440" "len pkru_buffer = 2440"
    by (simp_all add: pkru_buffer_def len_def)
  have c: "cap pkru_buffer = 2440"
    by (simp add: pkru_buffer_def cap_def)
  have comp: "xcomp_bv_of pkru_buffer = 0"
    by (simp add: xcomp_bv_of_def pkru_buffer_def Uint64_def)
  have bv: "xstate_bv_of pkru_buffer = 68"
    by (simp add: xstate_bv_of_def pkru_buffer_def Uint64_def)
  have x0: "xcr0_of pkru_buffer = 512"
    by (simp add: xcr0_of_def pkru_buffer_def Uint64_def)
  have s: "snd pkru_buffer = []"
    by (simp add: pkru_buffer_def)
  have z: "go_copy (ZmmSpace zero_Xstate) (take 512 (drop 896 (fst pkru_buffer)))
     = 171 # replicate 511 0"
    by (simp add: pkru_buffer_def go_copy_def zero_Xstate_def)
  show ?thesis
    using offset_resolution [of pkru_buffer "AMD64XstateRead pkru_buffer False zero_Xstate 0"
        False zero_Xstate 0 896]
    by (simp add: l c comp bv x0 s z hasAVX_def hasZMM_Hi256_def hasPKRU_def)
qed

text \<open>
  Claim C3 fails on the code. A 600-byte buffer whose header bitmap has the AVX bit set
  is longer than 576 bytes and not compact, yet the 256-byte AVX block does not fit:
  \<open>avxstate[:256]\<close> panics when the slice has no spare capacity, and when it has, the
  call returns nil after copying 232 bytes from beyond the buffer's end into \<open>YmmSpace\<close>.
\<close>

theorem short_avx_buffer_panics:
  "AMD64XstateRead avx_short_buffer False zero_Xstate 0
     = (Panicked, zero_Xstate\<lparr>AvxState := True\<rparr>) \<and>
   AMD64XstateRead avx_short_buffer_cap False zero_Xstate 0
     = (Success, zero_Xstate\<lparr>AvxState := True,
          YmmSpace := replicate 24 0 @ replicate 232 255\<rparr>)"
proof -
  have l: "length (fst avx_short_buffer) = 600" "length (fst avx_short_buffer_cap) = 600"
    by (simp_all add: avx_short_buffer_def avx_short_buffer_cap_def)
  have c: "cap avx_short_buffer = 600" "cap avx_short_buffer_cap = 832"
    by (simp_all add: avx_short_buffer_def avx_short_buffer_cap_def cap_def)
  have comp: "xcomp_bv_of avx_short_buffer = 0" "xcomp_bv_of avx_short_buffer_cap = 0"
    by (simp_all add: xcomp_bv_of_def avx_short_buffer_def avx_short_buffer_cap_def Uint64_def)
  have bv: "xstate_bv_of avx_short_buffer = 4" "xstate_bv_of avx_short_buffer_cap = 4"
    by (simp_all add: xstate_bv_of_def avx_short_buffer_def avx_short_buffer_cap_def Uint64_def)
  have y: "drop 576 (fst avx_short_buffer_cap) = replicate 24 0"
    "snd avx_short_buffer_cap = replicate 232 255"
    by (simp_all add: avx_short_buffer_cap_def)
  have 1: "AMD64XstateRead avx_short_buffer False zero_Xstate 0
     = (Panicked, zero_Xstate\<lparr>AvxState := True\<rparr>)"
    by (simp add: AMD64XstateRead_long l c comp bv after_legacy_False hasAVX_def)
  have 2: "AMD64XstateRead avx_short_buffer_cap False zero_Xstate 0
     = (Success, zero_Xstate\<lparr>AvxState := True,
          YmmSpace := replicate 24 0 @ replicate 232 255\<rparr>)"
    by (simp add: AMD64XstateRead_long l c comp bv y after_legacy_False hasAVX_def
        hasZMM_Hi256_def go_copy_def zero_Xstate_def)
  from 1 2 show ?thesis by (rule conjI)
qed

section \<open>The encoder\<close>

text \<open>
  Claim C2, as amended. For an index \<open>n\<close> in 0..15 and a value of at most 64 bytes,
  \<open>SetXmmRegister\<close> changes nothing but the bytes of \<open>Xsave\<close> and never its length. After
  a call that returns nil every position \<open>i\<close> of the buffer holds: the byte of
  \<open>value[32:L]\<close> aimed at \<open>i\<close> when \<open>L > 32\<close> and \<open>i\<close> lies in the range that starts at
  the cached offset plus \<open>n * 32\<close>; otherwise the byte of \<open>value[16:min(L,32)]\<close> aimed at
  \<open>i\<close> when \<open>L > 16\<close> and \<open>i\<close> lies in the range that starts at \<open>576 + n * 16\<close>;
  otherwise the byte of \<open>value[0:min(L,16)]\<close> aimed at \<open>i\<close> when \<open>i\<close> lies in the range
  that starts at \<open>160 + n * 16\<close>; otherwise the byte it held before. A slice whose range
  runs past the end of the buffer is therefore written as far as the buffer reaches, and
  a later slice overwrites an earlier one where their ranges overlap. When the target
  offset of a slice is at or beyond the end of the buffer the call returns an error and
  writes nothing of that slice: only the ranges of the earlier slices can have changed.
\<close>

theorem SetXmmRegister_split_law:
  assumes n: "0 \<le> n" "n < 16" and L: "length val \<le> 64"
    and res: "SetXmmRegister xstate n val = (r, xstate')"
    and buf: "buf = Xsave xstate"
    and x: "xmmpos = 160 + n * 16" and y: "ymmpos = 576 + n * 16"
    and z: "zmmpos = go_add (zmmHi256offset xstate) (n * 32)"
  shows "(xstate' = xstate\<lparr>Xsave := Xsave xstate'\<rparr> \<and>
    length (Xsave xstate') = length buf) \<and>
    (r = Success \<longrightarrow> (\<forall>i<length buf. Xsave xstate' ! i =
        (if 32 < length val \<and> in_range zmmpos (length val - 32) i
           then val ! (32 + (i - nat zmmpos))
         else if 16 < length val \<and> in_range ymmpos (min (length val - 16) 16) i
           then val ! (16 + (i - nat ymmpos))
         else if in_range xmmpos (min (length val) 16) i
           then val ! (i - nat xmmpos)
         else buf ! i))) \<and>
    (int (length buf) \<le> xmmpos \<longrightarrow> r = Failure (ErrNotInXsave n) \<and> xstate' = xstate) \<and>
    (16 < length val \<and> xmmpos < int (length buf) \<and> int (length buf) \<le> ymmpos \<longrightarrow>
       r = Failure (ErrYmmNotInXsave n (16 + int (min (length val - 16) 16))) \<and>
       (\<forall>i<length buf. \<not> in_range xmmpos 16 i \<longrightarrow> Xsave xstate' ! i = buf ! i)) \<and>
    (32 < length val \<and> ymmpos < int (length buf) \<and> int (length buf) \<le> zmmpos \<longrightarrow>
       r = Failure (ErrZmmNotInXsave n (int (length val))) \<and>
       (\<forall>i<length buf. \<not> in_range xmmpos 16 i \<and> \<not> in_range ymmpos 16 i \<longrightarrow>
          Xsave xstate' ! i = buf ! i))"
  (is "?A \<and> ?B \<and> ?C \<and> ?D \<and> ?E")
proof -
  define b1 where "b1 = write_at buf xmmpos (take 16 val)"
  define b2 where "b2 = write_at b1 ymmpos (take 16 (drop 16 val))"
  define b3 where "b3 = write_at b2 zmmpos (drop 32 val)"
  have p: "0 \<le> xmmpos" "0 \<le> ymmpos" "xmmpos < ymmpos" using n x y by simp_all
  have l1: "length b1 = length buf" if "xmmpos < int (length buf)"
    using that p by (simp add: length_write_at b1_def)
  have l2: "length b2 = length buf" if "ymmpos < int (length buf)"
    using that p l1 by (simp add: length_write_at b2_def)
  have l3: "length b3 = length buf"
    if "ymmpos < int (length buf)" "0 \<le> zmmpos" "zmmpos < int (length buf)"
    using that p l2 by (simp add: length_write_at b3_def)
  have n1: "b1 ! i = (if in_range xmmpos (min (length val) 16) i
                      then val ! (i - nat xmmpos) else buf ! i)"
    if "xmmpos < int (length buf)" "i < length buf" for i
    using that p by (auto simp add: nth_write_at in_range_def b1_def)
  have n2: "b2 ! i = (if in_range ymmpos (min (length val - 16) 16) i
                      then val ! (16 + (i - nat ymmpos)) else b1 ! i)"
    if "ymmpos < int (length buf)" "i < length buf" "16 < length val" for i
    using that p l1 by (auto simp add: nth_write_at in_range_def b2_def)
  have n3: "b3 ! i = (if in_range zmmpos (length val - 32) i
                      then val ! (32 + (i - nat zmmpos)) else b2 ! i)"
    if "ymmpos < int (length buf)" "0 \<le> zmmpos" "zmmpos < int (length buf)"
       "i < length buf" "32 < length val" for i
    using that p l2 by (auto simp add: nth_write_at in_range_def b3_def)
  note folds = buf [symmetric] x [symmetric] y [symmetric] z [symmetric]
  have fin: "?A \<Longrightarrow> ?B \<Longrightarrow> ?C \<Longrightarrow> ?D \<Longrightarrow> ?E \<Longrightarrow> ?thesis"
    by ((rule conjI, assumption)+, assumption)
  show ?thesis
  proof (cases "int (length buf) \<le> xmmpos")
    case True
    have "SetXmmRegister xstate n val = (Failure (ErrNotInXsave n), xstate)"
      using True by (intro Set_fail1 n L) (simp add: buf x)
    with res have R: "r = Failure (ErrNotInXsave n)" "xstate' = xstate" by simp_all
    have A: ?A by (simp add: R buf)
    have B: ?B by (simp add: R)
    have C: ?C by (simp add: R)
    have D: ?D using True by simp
    have E: ?E using True p by simp
    from A B C D E show ?thesis by (rule fin)
  next
    case f1: False
    then have f1': "xmmpos < int (length buf)" by simp
    have C: ?C using f1 by simp
    show ?thesis
    proof (cases "length val \<le> 16")
      case True
      have "SetXmmRegister xstate n val = (Success, xstate\<lparr>Xsave := b1\<rparr>)"
        unfolding b1_def buf x using True f1' by (intro Set_ok1 n) (simp_all add: buf x)
      with res have R: "r = Success" "xstate' = xstate\<lparr>Xsave := b1\<rparr>" by simp_all
      have A: ?A by (simp add: R l1 f1')
      have B: ?B using True by (simp add: R n1 f1')
      have D: ?D using True by simp
      have E: ?E using True by simp
      from A B C D E show ?thesis by (rule fin)
    next
      case g1: False
      then have g1': "16 < length val" by simp
      show ?thesis
      proof (cases "int (length buf) \<le> ymmpos")
        case True
        have "SetXmmRegister xstate n val =
           (Failure (ErrYmmNotInXsave n (16 + int (min (length val - 16) 16))),
            xstate\<lparr>Xsave := b1\<rparr>)"
          unfolding b1_def buf x using True f1' g1'
          by (intro Set_fail2 n L) (simp_all add: buf x y)
        with res have R: "r = Failure (ErrYmmNotInXsave n (16 + int (min (length val - 16) 16)))"
          "xstate' = xstate\<lparr>Xsave := b1\<rparr>" by simp_all
        have A: ?A by (simp add: R l1 f1')
        have B: ?B by (simp add: R)
        have m: "min (length val) 16 = 16" using g1' by simp
        have D: ?D by (simp add: R n1 f1' m)
        have E: ?E using True by simp
        from A B C D E show ?thesis by (rule fin)
      next
        case f2: False
        then have f2': "ymmpos < int (length buf)" by simp
        have D: ?D using f2 by simp
        have m: "min (length val) 16 = 16" using g1' by simp
        show ?thesis
        proof (cases "length val \<le> 32")
          case True
          have "SetXmmRegister xstate n val = (Success, xstate\<lparr>Xsave := b2\<rparr>)"
            unfolding b2_def b1_def buf x y using True f2' g1'
            by (intro Set_ok2 n) (simp_all add: buf y)
          with res have R: "r = Success" "xstate' = xstate\<lparr>Xsave := b2\<rparr>" by simp_all
          have A: ?A by (simp add: R l2 f2')
          have B: ?B using True g1' by (simp add: R n1 n2 f1' f2')
          have E: ?E using True by simp
          from A B C D E show ?thesis by (rule fin)
        next
          case g2: False
          then have g2': "32 < length val" by simp
          have m2: "min (length val - 16) 16 = 16" using g2' by simp
          show ?thesis
          proof (cases "int (length buf) \<le> zmmpos")
            case True
            have "SetXmmRegister xstate n val =
               (Failure (ErrZmmNotInXsave n (int (length val))), xstate\<lparr>Xsave := b2\<rparr>)"
              unfolding b2_def b1_def buf x y using True f2' g2'
              by (intro Set_fail3 n L) (simp_all add: buf y z)
            with res have R: "r = Failure (ErrZmmNotInXsave n (int (length val)))"
              "xstate' = xstate\<lparr>Xsave := b2\<rparr>" by simp_all
            have A: ?A by (simp add: R l2 f2')
            have B: ?B by (simp add: R)
            have E: ?E using g1' by (simp add: R n1 n2 f1' f2' m m2)
            from A B C D E show ?thesis by (rule fin)
          next
            case f3: False
            then have f3': "zmmpos < int (length buf)" by simp
            have E: ?E using f3 by simp
            show ?thesis
            proof (cases "zmmpos < 0")
              case True
              have "SetXmmRegister xstate n val = (Panicked, xstate\<lparr>Xsave := b2\<rparr>)"
                unfolding b2_def b1_def buf x y using True f2' g2'
                by (intro Set_panic3 n L) (simp_all add: buf y z)
              with res have R: "r = Panicked" "xstate' = xstate\<lparr>Xsave := b2\<rparr>"
                by simp_all
              have A: ?A by (simp add: R l2 f2')
              have B: ?B by (simp add: R)
              from A B C D E show ?thesis by (rule fin)
            next
              case False
              then have z0: "0 \<le> zmmpos" by simp
              have "SetXmmRegister xstate n val = (Success, xstate\<lparr>Xsave := b3\<rparr>)"
                unfolding b3_def b2_def b1_def buf x y z using z0 f3' f2' g2'
                by (intro Set_ok3 n L) (simp_all add: buf y z)
              with res have R: "r = Success" "xstate' = xstate\<lparr>Xsave := b3\<rparr>"
                by simp_all
              have A: ?A by (simp add: R l3 f2' f3' z0)
              have B: ?B using g1' g2' by (simp add: R n1 n2 n3 f1' f2' f3' z0)
              from A B C D E show ?thesis by (rule fin)
            qed
          qed
        qed
      qed
    qed
  qed
qed

theorem SetXmmRegister_split_law_witness:
  "fst (SetXmmRegister enc_state 3 enc_value) = Success \<and>
   length (Xsave (snd (SetXmmRegister enc_state 3 enc_value))) = 2000 \<and>
   Xsave (snd (SetXmmRegister enc_state 3 enc_value)) ! 207 = 0 \<and>
   Xsave (snd (SetXmmRegister enc_state 3 enc_value)) ! 208 = 1 \<and>
   Xsave (snd (SetXmmRegister enc_state 3 enc_value)) ! 624 = 2 \<and>
   Xsave (snd (SetXmmRegister enc_state 3 enc_value)) ! 1248 = 3 \<and>
   Xsave (snd (SetXmmRegister enc_state 3 enc_value)) ! 1279 = 3 \<and>
   Xsave (snd (SetXmmRegister enc_state 3 enc_value)) ! 1280 = 0"
proof -
  let ?r = "fst (SetXmmRegister enc_state 3 enc_value)"
  let ?s = "snd (SetXmmRegister enc_state 3 enc_value)"
  have ok: "?r = Success"
    by (subst Set_ok3) (simp_all add: enc_state_simps enc_value_length go_add_eval)
  have hyp: "SetXmmRegister enc_state 3 enc_value = (?r, ?s)"
    by simp
  have L: "length enc_value \<le> 64"
    by (simp add: enc_value_length)
  note t = SetXmmRegister_split_law [OF _ _ L hyp refl refl refl refl]
  have len: "length (Xsave ?s) = 2000"
    using t by (simp add: enc_state_simps)
  have pt: "i < length (Xsave enc_state) \<Longrightarrow> Xsave ?s ! i =
        (if 32 < length enc_value \<and>
            in_range (go_add (zmmHi256offset enc_state) (3 * 32)) (length enc_value - 32) i
           then enc_value ! (32 + (i - nat (go_add (zmmHi256offset enc_state) (3 * 32))))
         else if 16 < length enc_value \<and>
            in_range (576 + 3 * 16) (min (length enc_value - 16) 16) i
           then enc_value ! (16 + (i - nat (576 + 3 * 16)))
         else if in_range (160 + 3 * 16) (min (length enc_value) 16) i
           then enc_value ! (i - nat (160 + 3 * 16))
         else Xsave enc_state ! i)" for i
    using t ok by simp
  note ev = enc_state_simps enc_value_length go_add_eval in_range_def enc_value_def nth_append
  have "Xsave ?s ! 207 = 0" by (subst pt) (simp_all add: ev)
  moreover have "Xsave ?s ! 208 = 1" by (subst pt) (simp_all add: ev)
  moreover have "Xsave ?s ! 624 = 2" by (subst pt) (simp_all add: ev)
  moreover have "Xsave ?s ! 1248 = 3" by (subst pt) (simp_all add: ev)
  moreover have "Xsave ?s ! 1279 = 3" by (subst pt) (simp_all add: ev)
  moreover have "Xsave ?s ! 1280 = 0" by (subst pt) (simp_all add: ev)
  ultimately show ?thesis
    using ok len by simp
qed

text \<open>
  Claim C2 as stated fails. On a 170-byte buffer a 16-byte write to index 0 returns nil
  although only the first 10 bytes of the value fit after offset 160: the buffer does not
  hold \<open>value[0:16]\<close> there. And with no offset recorded (zero), a 64-byte write to index
  9 returns nil with the third slice written over the first: position 304 holds a byte
  of \<open>value[32:64]\<close>, not \<open>value[0]\<close>.
\<close>

theorem SetXmmRegister_split_law_counterexample:
  "fst (SetXmmRegister short_enc_state 0 (replicate 16 255)) = Success \<and>
   Xsave (snd (SetXmmRegister short_enc_state 0 (replicate 16 255)))
     = replicate 160 0 @ replicate 10 255 \<and>
   fst (SetXmmRegister stale_enc_state 9 enc_value) = Success \<and>
   Xsave (snd (SetXmmRegister stale_enc_state 9 enc_value)) ! 304 = 3 \<and>
   enc_value ! 0 = 1"
proof -
  have 1: "SetXmmRegister short_enc_state 0 (replicate 16 255)
     = (Success, short_enc_state\<lparr>Xsave := replicate 160 0 @ replicate 10 255\<rparr>)"
    by (subst Set_ok1) (simp_all add: enc_state_simps write_at_def go_copy_def)
  have 2: "SetXmmRegister stale_enc_state 9 enc_value = (Success, stale_enc_state\<lparr>Xsave :=
       write_at (write_at (write_at (replicate 2000 0) 304 (take 16 enc_value))
         720 (take 16 (drop 16 enc_value))) 288 (drop 32 enc_value)\<rparr>)"
    by (subst Set_ok3) (simp_all add: enc_state_simps enc_value_length go_add_eval)
  have 3: "write_at (write_at (write_at (replicate 2000 0) 304 (take 16 enc_value))
         720 (take 16 (drop 16 enc_value))) 288 (drop 32 enc_value) ! 304 = 3"
    by (subst nth_write_at) (simp_all add: length_write_at in_range_def enc_value_def)
  have 4: "enc_value ! 0 = 1"
    by (simp add: enc_value_def nth_append)
  show ?thesis
    using 3 4 by (simp add: 1 2)
qed

text \<open>
  Claim C5, as amended. \<open>SetXmmRegister\<close> with an index of 16 or more returns an error
  of kind RegisterWriteOutOfRange and leaves the state alone; so it does, for an index
  below 16, with a value longer than 64 bytes. A 64-byte value written to an index in
  0..15 of a buffer that holds the first two slices in full and ends at or before the
  target offset of the third returns an error of the same kind, with the first two
  slices already in the buffer.
\<close>

theorem SetXmmRegister_rejections:
  "(16 \<le> n \<longrightarrow>
      SetXmmRegister xstate n val = (Failure (ErrNotSupported n), xstate) \<and>
      kind_of (ErrNotSupported n) = RegisterWriteOutOfRange) \<and>
   (n < 16 \<and> 64 < length val \<longrightarrow>
      SetXmmRegister xstate n val = (Failure (ErrTooLarge n (int (length val))), xstate) \<and>
      kind_of (ErrTooLarge n (int (length val))) = RegisterWriteOutOfRange) \<and>
   (0 \<le> n \<and> n < 16 \<and> length val = 64 \<and>
    576 + n * 16 + 16 \<le> int (length (Xsave xstate)) \<and>
    int (length (Xsave xstate)) \<le> go_add (zmmHi256offset xstate) (n * 32) \<longrightarrow>
      fst (SetXmmRegister xstate n val) = Failure (ErrZmmNotInXsave n 64) \<and>
      kind_of (ErrZmmNotInXsave n 64) = RegisterWriteOutOfRange \<and>
      length (Xsave (snd (SetXmmRegister xstate n val))) = length (Xsave xstate) \<and>
      take 16 (drop (nat (160 + n * 16)) (Xsave (snd (SetXmmRegister xstate n val))))
        = take 16 val \<and>
      take 16 (drop (nat (576 + n * 16)) (Xsave (snd (SetXmmRegister xstate n val))))
        = take 16 (drop 16 val))"
  (is "?A \<and> ?B \<and> ?C")
proof -
  have A: ?A by (simp add: SetXmmRegister_def)
  have B: ?B by (simp add: SetXmmRegister_def)
  have C: ?C
  proof (intro impI, elim conjE)
    assume n: "0 \<le> n" "n < 16" and L: "length val = 64"
      and long: "576 + n * 16 + 16 \<le> int (length (Xsave xstate))"
      and short: "int (length (Xsave xstate)) \<le> go_add (zmmHi256offset xstate) (n * 32)"
    let ?buf = "Xsave xstate"
    let ?b1 = "write_at ?buf (160 + n * 16) (take 16 val)"
    let ?b2 = "write_at ?b1 (576 + n * 16) (take 16 (drop 16 val))"
    have e: "SetXmmRegister xstate n val =
        (Failure (ErrZmmNotInXsave n (int (length val))), xstate\<lparr>Xsave := ?b2\<rparr>)"
      using n L long short by (intro Set_fail3) simp_all
    have l1: "length ?b1 = length ?buf"
      using n long by (simp add: length_write_at)
    have l2: "length ?b2 = length ?buf"
      using n long l1 by (simp add: length_write_at)
    have s2: "take 16 (drop (nat (576 + n * 16)) ?b2) = take 16 (drop 16 val)"
      using slice_write_at_same [of "576 + n * 16" "take 16 (drop 16 val)" ?b1] n L long l1
      by simp
    have "take 16 (drop (nat (160 + n * 16)) ?b2) = take 16 (drop (nat (160 + n * 16)) ?b1)"
      using n long l1 by (intro slice_write_at_before) simp_all
    also have "\<dots> = take 16 val"
      using slice_write_at_same [of "160 + n * 16" "take 16 val" ?buf] n L long
      by simp
    finally have s1: "take 16 (drop (nat (160 + n * 16)) ?b2) = take 16 val" .
    show "fst (SetXmmRegister xstate n val) = Failure (ErrZmmNotInXsave n 64) \<and>
      kind_of (ErrZmmNotInXsave n 64) = RegisterWriteOutOfRange \<and>
      length (Xsave (snd (SetXmmRegister xstate n val))) = length (Xsave xstate) \<and>
      take 16 (drop (nat (160 + n * 16)) (Xsave (snd (SetXmmRegister xstate n val))))
        = take 16 val \<and>
      take 16 (drop (nat (576 + n * 16)) (Xsave (snd (SetXmmRegister xstate n val))))
        = take 16 (drop 16 val)"
      using l2 s1 s2 L by (simp add: e)
  qed
  from A B C show ?thesis by (intro conjI)
qed

theorem SetXmmRegister_rejections_witness:
  "SetXmmRegister enc_state 16 enc_value = (Failure (ErrNotSupported 16), enc_state) \<and>
   SetXmmRegister enc_state 0 (replicate 65 0) = (Failure (ErrTooLarge 0 65), enc_state) \<and>
   fst (SetXmmRegister mid_enc_state 3 enc_value) = Failure (ErrZmmNotInXsave 3 64) \<and>
   take 16 (drop 208 (Xsave (snd (SetXmmRegister mid_enc_state 3 enc_value)))) = replicate 16 1 \<and>
   take 16 (drop 624 (Xsave (snd (SetXmmRegister mid_enc_state 3 enc_value)))) = replicate 16 2"
proof -
  have 1: "SetXmmRegister enc_state 16 enc_value = (Failure (ErrNotSupported 16), enc_state)"
    using SetXmmRegister_rejections [of 16 enc_state enc_value] by simp
  have 2: "SetXmmRegister enc_state 0 (replicate 65 0) = (Failure (ErrTooLarge 0 65), enc_state)"
    using SetXmmRegister_rejections [of 0 enc_state "replicate 65 0"] by simp
  have 3: "fst (SetXmmRegister mid_enc_state 3 enc_value) = Failure (ErrZmmNotInXsave 3 64) \<and>
   take 16 (drop 208 (Xsave (snd (SetXmmRegister mid_enc_state 3 enc_value)))) = replicate 16 1 \<and>
   take 16 (drop 624 (Xsave (snd (SetXmmRegister mid_enc_state 3 enc_value)))) = replicate 16 2"
    using SetXmmRegister_rejections [of 3 mid_enc_state enc_value]
    by (simp add: mid_enc_state_simps enc_value_length go_add_eval) (simp add: enc_value_def)
  from 1 2 3 show ?thesis by simp
qed

text \<open>
  Claim C5 as stated fails where the buffer ends inside the range of the third slice: a
  1160-byte buffer is too short for the 32 bytes aimed at offset 1152, yet the call
  returns nil and the 8 bytes that fit are written.
\<close>

theorem SetXmmRegister_rejections_counterexample:
  "length (Xsave partial_enc_state) = 1160 \<and>
   go_add (zmmHi256offset partial_enc_state) (0 * 32) = 1152 \<and>
   length enc_value = 64 \<and>
   fst (SetXmmRegister partial_enc_state 0 enc_value) = Success \<and>
   drop 1152 (Xsave (snd (SetXmmRegister partial_enc_state 0 enc_value))) = replicate 8 3"
proof -
  have 2: "SetXmmRegister partial_enc_state 0 enc_value = (Success, partial_enc_state\<lparr>Xsave :=
       write_at (write_at (write_at (replicate 1160 0) 160 (take 16 enc_value))
         576 (take 16 (drop 16 enc_value))) 1152 (drop 32 enc_value)\<rparr>)"
    by (subst Set_ok3) (simp_all add: partial_enc_state_simps enc_value_length go_add_eval)
  have 3: "drop 1152 (write_at (write_at (write_at (replicate 1160 0) 160 (take 16 enc_value))
         576 (take 16 (drop 16 enc_value))) 1152 (drop 32 enc_value)) = replicate 8 3"
    by (simp add: write_at_def go_copy_def enc_value_def)
  show ?thesis
    using 3 by (simp add: 2 partial_enc_state_simps enc_value_length go_add_eval)
qed

text \<open>
  Claim C10 fails on the code: the index check is \<open>n >= 16\<close> only. Index -1 is accepted
  and the value lands at offset 144, inside the x87 registers; index -11 makes the target
  offset negative and the slice expression panics.
\<close>

theorem negative_index_not_rejected:
  "SetXmmRegister enc_state (- 1) (replicate 16 255)
     = (Success, enc_state\<lparr>Xsave := replicate 144 0 @ replicate 16 255 @ replicate 1840 0\<rparr>) \<and>
   SetXmmRegister enc_state (- 11) (replicate 16 255) = (Panicked, enc_state)"
  by (simp add: SetXmmRegister_def Let_def go_add_def go_mul_def wrap64_def copy_at_def
      go_copy_def layout_defs enc_state_simps)

section \<open>The register list\<close>

text \<open>
  Claim C6. For every register state \<open>Decode\<close> returns the list of the specification, in
  its order: \<open>CW\<close>, \<open>SW\<close>, \<open>TW\<close>, \<open>FOP\<close>, \<open>FIP\<close>, \<open>FDP\<close> as 64-bit values; \<open>ST(0)\<close> to
  \<open>ST(7)\<close>, each the 8 little-endian bytes of the two 32-bit mantissa words followed by
  the 2 bytes of the exponent and sign word; \<open>MXCSR\<close> and \<open>MXCSR_MASK\<close>; then for each
  index from 0 to 15 the \<open>XMM\<close> row, the \<open>YMM\<close> row when AVX is present and, only then,
  the \<open>ZMM\<close> row when AVX-512 is present. No name occurs twice. With the arrays of the
  state at their declared sizes the rows are 8, 10, 8, 16, 16 and 32 bytes wide.
\<close>

theorem Decode_order:
  "Decode xstate = register_list xstate \<and>
   distinct (map fst (Decode xstate)) \<and>
   (wf_Xstate xstate \<longrightarrow>
      map (value_size \<circ> snd) (Decode xstate) =
        replicate 6 8 @ replicate 8 10 @ [8, 8]
        @ concat (replicate 16
            (16 # (if AvxState xstate
                   then 16 # (if Avx512State xstate then [32] else []) else []))))"
  unfolding Decode_register_list
  by (intro conjI impI refl register_list_names_distinct register_list_sizes)

theorem Decode_order_witness:
  "wf_Xstate full_state \<and>
   map fst (take 6 (Decode full_state)) = [''CW'', ''SW'', ''TW'', ''FOP'', ''FIP'', ''FDP''] \<and>
   map (value_size \<circ> snd) (Decode full_state) =
     replicate 6 8 @ replicate 8 10 @ [8, 8] @ concat (replicate 16 [16, 16, 32])"
proof -
  have wf: "wf_Xstate full_state"
    by (simp add: wf_Xstate_def full_state_def zero_Xstate_def)
  have fl: "AvxState full_state" "Avx512State full_state"
    by (simp_all add: full_state_def)
  have d: "Decode full_state = register_list full_state"
    using Decode_order [of full_state] by simp
  have n: "map fst (take 6 (Decode full_state)) = [''CW'', ''SW'', ''TW'', ''FOP'', ''FIP'', ''FDP'']"
    by (simp add: d register_list_def)
  have "map (value_size \<circ> snd) (Decode full_state) =
        replicate 6 8 @ replicate 8 10 @ [8, 8]
        @ concat (replicate 16
            (16 # (if AvxState full_state
                   then 16 # (if Avx512State full_state then [32] else []) else [])))"
    using Decode_order [of full_state] wf by blast
  then have sz: "map (value_size \<circ> snd) (Decode full_state) =
     replicate 6 8 @ replicate 8 10 @ [8, 8] @ concat (replicate 16 [16, 16, 32])"
    by (simp only: fl if_True)
  from wf n sz show ?thesis
    by (intro conjI)
qed

section \<open>Round trip\<close>

text \<open>
  Claim C7. Take a buffer longer than 576 bytes, decoded with the legacy read into a
  state whose \<open>Xsave\<close> is that buffer. Writing the 16 bytes that \<open>Decode\<close> lists for
  \<open>XMM3\<close> back with \<open>SetXmmRegister\<close> at index 3 returns nil and leaves the buffer as
  it was, and decoding it again (into any state) lists the same bytes for \<open>XMM3\<close>: bytes
  208 to 223 of the buffer.
\<close>

theorem xmm3_round_trip:
  assumes long: "576 < length (fst xstateargs)"
    and al: "Xsave regset = fst xstateargs"
    and st1: "st1 = snd (AMD64XstateRead xstateargs True regset hint)"
    and v: "map_of (Decode st1) ''XMM3'' = Some (BytesValue v)"
    and wr: "SetXmmRegister st1 3 v = (r2, st2)"
    and st3: "st3 = snd (AMD64XstateRead (Xsave st2, snd xstateargs) True regset' hint')"
  shows "v = take 16 (drop 208 (fst xstateargs)) \<and> r2 = Success \<and>
         Xsave st2 = fst xstateargs \<and>
         map_of (Decode st3) ''XMM3'' = Some (BytesValue v)"
proof -
  let ?buf = "fst xstateargs"
  have x1: "XmmSpace st1 = take 256 (drop 160 ?buf)"
    unfolding st1 using long by (rule AMD64XstateRead_XmmSpace)
  have b1: "Xsave st1 = ?buf"
    unfolding st1 by (simp add: AMD64XstateRead_Xsave al)
  have "v = take 16 (drop 48 (XmmSpace st1))"
    using v by (simp add: Decode_XMM3)
  then have v': "v = take 16 (drop 208 ?buf)"
    by (simp add: x1 drop_take)
  have lv: "length v = 16"
    using long by (simp add: v')
  have "SetXmmRegister st1 3 v =
      (Success, st1\<lparr>Xsave := write_at (Xsave st1) (160 + 3 * 16) (take 16 v)\<rparr>)"
    using long lv by (intro Set_ok1) (simp_all add: b1)
  moreover have "write_at (Xsave st1) (160 + 3 * 16) (take 16 v) = ?buf"
    using write_at_same [of 208 16 ?buf] long by (simp add: b1 v')
  ultimately have r: "r2 = Success" "st2 = st1\<lparr>Xsave := ?buf\<rparr>"
    using wr by simp_all
  have b2: "Xsave st2 = ?buf"
    by (simp add: r)
  have "XmmSpace st3 = take 256 (drop 160 ?buf)"
    unfolding st3 b2 using long AMD64XstateRead_XmmSpace [of "(?buf, snd xstateargs)"] by simp
  then have "map_of (Decode st3) ''XMM3'' = Some (BytesValue v)"
    by (simp add: Decode_XMM3 v' drop_take)
  with v' r(1) b2 show ?thesis
    by (intro conjI)
qed

theorem xmm3_round_trip_witness:
  "map_of (Decode (snd (AMD64XstateRead rt_buffer True rt_state 0))) ''XMM3''
     = Some (BytesValue (replicate 16 7)) \<and>
   fst (SetXmmRegister (snd (AMD64XstateRead rt_buffer True rt_state 0)) 3 (replicate 16 7))
     = Success \<and>
   map_of (Decode (snd (AMD64XstateRead
      (Xsave (snd (SetXmmRegister (snd (AMD64XstateRead rt_buffer True rt_state 0)) 3
                (replicate 16 7))), snd rt_buffer) True zero_Xstate 0))) ''XMM3''
     = Some (BytesValue (replicate 16 7))"
proof -
  let ?st1 = "snd (AMD64XstateRead rt_buffer True rt_state 0)"
  let ?res = "SetXmmRegister ?st1 3 (replicate 16 7)"
  have long: "576 < length (fst rt_buffer)"
    by (simp add: rt_buffer_def)
  have al: "Xsave rt_state = fst rt_buffer"
    by (simp add: rt_state_def)
  have v: "map_of (Decode ?st1) ''XMM3'' = Some (BytesValue (replicate 16 7))"
    by (simp add: Decode_XMM3 AMD64XstateRead_XmmSpace [OF long]) (simp add: rt_buffer_def)
  have wr: "?res = (fst ?res, snd ?res)"
    by simp
  note t = xmm3_round_trip [OF long al refl v wr refl, of zero_Xstate 0]
  from t have a: "fst ?res = Success"
    by (elim conjE)
  from t have b: "map_of (Decode (snd (AMD64XstateRead (Xsave (snd ?res), snd rt_buffer)
      True zero_Xstate 0))) ''XMM3'' = Some (BytesValue (replicate 16 7))"
    by (elim conjE)
  from v a b show ?thesis
    by (intro conjI)
qed

end
